theory Spec2Isabelle
  imports Complex_Main "HOL-Library.Word"
begin

section \<open>Shared-data connector: \<^verbatim>\<open>seL4SharedData-to.template.c\<close>\<close>

text \<open>
  The template is instantiated once per connection end. An instance is fixed by three
  things the template splices into the generated C: the address of the dataport symbol
  (the value of the pointer variable named after the interface), \<^verbatim>\<open>sizeof\<close> of the
  interface's type, and the connection's \<^verbatim>\<open>id\<close>.

  Addresses are \<^verbatim>\<open>uintptr_t\<close> values, modelled as \<open>'a word\<close>; \<^verbatim>\<open>sizeof\<close> yields a
  \<^verbatim>\<open>size_t\<close>, taken to have the width of \<^verbatim>\<open>uintptr_t\<close>, so that the sum in the bounds
  check wraps at \<open>2 ^ LENGTH('a)\<close>. The header \<^verbatim>\<open>camkes/dataport.h\<close> that declares
  \<^verbatim>\<open>dataport_ptr_t\<close> is not among the templates: the width of \<^verbatim>\<open>off_t\<close> is
  the type parameter \<open>'b\<close> and the type of the \<^verbatim>\<open>id\<close> field is the type parameter
  \<open>'i\<close> (only assignment and equality are used on it).
\<close>

record (overloaded) ('a, 'i) region =
  base :: "'a word"
  type_size :: "'a word"
  region_id :: 'i

record (overloaded) ('i, 'b) dataport_ptr =
  id_field :: 'i
  offset_field :: "'b word"

text \<open>
  Modelled from the spec: the macros \<^verbatim>\<open>ROUND_UP_UNSAFE\<close> and \<^verbatim>\<open>PAGE_SIZE_4K\<close> used
  for the length of the \<^verbatim>\<open>content\<close> array are defined outside the templates. The
  spec gives the page size as 4096 bytes and the capacity as the declared type size
  rounded up to the page size.
\<close>

definition PAGE_SIZE_4K :: nat where
  "PAGE_SIZE_4K = 4096"

text \<open>
  Modelled from the spec: \<^verbatim>\<open>ROUND_UP_UNSAFE(n, b)\<close> rounds \<open>n\<close> up to the next multiple
  of \<open>b\<close>: a multiple stays, anything else is topped up by what is missing to the next
  one. Sizes are natural numbers here, as in the spec.
\<close>

definition ROUND_UP_UNSAFE :: "nat \<Rightarrow> nat \<Rightarrow> nat" where
  "ROUND_UP_UNSAFE n b = n + (if n mod b = 0 then 0 else b - n mod b)"

text \<open>The length of \<^verbatim>\<open>char content[ROUND_UP_UNSAFE(sizeof(T), PAGE_SIZE_4K)]\<close>.\<close>

definition content_size :: "nat \<Rightarrow> nat" where
  "content_size sz = ROUND_UP_UNSAFE sz PAGE_SIZE_4K"

definition capacity :: "('a::len, 'i) region \<Rightarrow> nat" where
  "capacity R = content_size (unat (type_size R))"

text \<open>\<^verbatim>\<open>int NAME__run(void)\<close>: nothing to do, returns 0.\<close>

definition run :: int where
  "run = 0"

text \<open>
  \<^verbatim>\<open>int NAME_wrap_ptr(dataport_ptr_t *p, void *ptr)\<close>. The struct behind \<open>p\<close> is
  passed in and returned next to the C return value. The comparisons are on
  \<^verbatim>\<open>uintptr_t\<close>; the cast to \<^verbatim>\<open>off_t\<close> keeps the value modulo \<open>2 ^ LENGTH('b)\<close>.
\<close>

definition wrap_ptr ::
  "('a::len, 'i) region \<Rightarrow> ('i, 'b::len) dataport_ptr \<Rightarrow> 'a word
    \<Rightarrow> int \<times> ('i, 'b) dataport_ptr" where
  "wrap_ptr R p ptr =
     (if ptr < base R \<or> ptr \<ge> base R + type_size R
      then (- 1, p)
      else (0, p\<lparr>id_field := region_id R, offset_field := ucast (ptr - base R)\<rparr>))"

definition NULL :: "'a::len word" where
  "NULL = 0"

text \<open>
  \<^verbatim>\<open>void *NAME_unwrap_ptr(dataport_ptr_t *p)\<close>. The cast of the signed
  \<^verbatim>\<open>off_t\<close> to \<^verbatim>\<open>uintptr_t\<close> is \<open>scast\<close>; the sum wraps.
\<close>

definition unwrap_ptr ::
  "('a::len, 'i) region \<Rightarrow> ('i, 'b::len) dataport_ptr \<Rightarrow> 'a word" where
  "unwrap_ptr R p =
     (if id_field p = region_id R
      then base R + scast (offset_field p)
      else NULL)"

section \<open>Call fragment: \<^verbatim>\<open>call-unmarshal-inputs.c\<close>\<close>

text \<open>
  The fragment is included with three variables: \<^verbatim>\<open>function\<close> and \<^verbatim>\<open>size\<close>, both
  names, and \<^verbatim>\<open>input_parameters\<close>, a list of objects with a \<^verbatim>\<open>name\<close> and an
  \<^verbatim>\<open>array\<close> flag. It emits one C call expression. The emitted text is modelled as
  its sequence of C tokens; white space, which the template strips, is left out.
\<close>

record parameter =
  name :: string
  array :: bool

datatype token = Ident string | Comma | LParen | RParen

text \<open>
  The \<^verbatim>\<open>for p in input_parameters\<close> loop: the count pointer first when \<^verbatim>\<open>p.array\<close>,
  then the value pointer, then a comma unless \<^verbatim>\<open>loop.last\<close>.
\<close>

fun for_input_parameters :: "parameter list \<Rightarrow> token list" where
  "for_input_parameters [] = []"
| "for_input_parameters (p # ps) =
     (if array p then [Ident (name p @ ''_sz_ptr''), Comma] else [])
     @ [Ident (name p @ ''_ptr'')]
     @ (if ps \<noteq> [] then [Comma] else [])
     @ for_input_parameters ps"

definition call_unmarshal_inputs :: "string \<Rightarrow> string \<Rightarrow> parameter list \<Rightarrow> token list" where
  "call_unmarshal_inputs function size_var input_parameters =
     [Ident function, LParen, Ident size_var]
     @ (if length input_parameters > 0 then [Comma] else [])
     @ for_input_parameters input_parameters
     @ [RParen]"

text \<open>
  Reading the emitted call back: \<open>argument_list\<close> accepts identifiers separated by single
  commas and returns them in order; \<open>call_slots\<close> accepts \<^verbatim>\<open>f ( args )\<close> and returns the
  arguments. Anything else (a doubled, leading or trailing comma, a missing parenthesis) is
  \<open>None\<close>.
\<close>

fun argument_list :: "token list \<Rightarrow> string list option" where
  "argument_list [Ident a] = Some [a]"
| "argument_list (Ident a # Comma # ts) = map_option ((#) a) (argument_list ts)"
| "argument_list _ = None"

fun call_slots :: "token list \<Rightarrow> string list option" where
  "call_slots (Ident f # LParen # ts) =
     (if ts \<noteq> [] \<and> last ts = RParen then argument_list (butlast ts) else None)"
| "call_slots _ = None"

text \<open>
  The descriptor as the specification words it: the size slot, then per parameter in
  declared order one slot for a scalar, two for an array (count pointer, then buffer
  pointer).
\<close>

definition parameter_slots :: "parameter \<Rightarrow> string list" where
  "parameter_slots p =
     (if array p then [name p @ ''_sz_ptr'', name p @ ''_ptr''] else [name p @ ''_ptr''])"

definition descriptor_slots :: "string \<Rightarrow> parameter list \<Rightarrow> string list" where
  "descriptor_slots size_var ps = size_var # concat (map parameter_slots ps)"

section \<open>Capability names header: \<^verbatim>\<open>component.all_tcb_caps.h\<close>\<close>

text \<open>
  The template reads \<^verbatim>\<open>cap_space.all_tcb_caps_slots\<close>, a list of slot indices, and
  \<^verbatim>\<open>cap_space.cnode.slots\<close>, a dictionary from slot index to a capability or
  \<^verbatim>\<open>None\<close>, taken here as the list of its items in iteration order. Python's \<^verbatim>\<open>min\<close>
  and \<^verbatim>\<open>max\<close> raise \<^verbatim>\<open>ValueError\<close> on an empty list; \<^verbatim>\<open>hex\<close> prints an unsuffixed
  hexadecimal literal of the same value. The generated header is the values of the two
  literals and the designated initialisers of \<^verbatim>\<open>cap_names\<close> in the order they are
  emitted.
\<close>

datatype error = ValueError

record kernel_object =
  object_name :: string

record cap =
  referent :: kernel_object

record cap_space =
  all_tcb_caps_slots :: "nat list"
  cnode_slots :: "(nat \<times> cap option) list"

record all_tcb_caps_h =
  ALL_TCB_CAPS_MIN :: nat
  ALL_TCB_CAPS_MAX :: nat
  cap_names_init :: "(nat \<times> string) list"

fun py_min :: "nat list \<Rightarrow> error + nat" where
  "py_min [] = Inl ValueError"
| "py_min (x # xs) = Inr (fold min xs x)"

fun py_max :: "nat list \<Rightarrow> error + nat" where
  "py_max [] = Inl ValueError"
| "py_max (x # xs) = Inr (fold max xs x)"

fun cap_names_items :: "(nat \<times> cap option) list \<Rightarrow> (nat \<times> string) list" where
  "cap_names_items [] = []"
| "cap_names_items ((idx, cap) # rest) =
     (case cap of
        Some c \<Rightarrow> [(idx, object_name (referent c))]
      | None \<Rightarrow> [])
     @ cap_names_items rest"

definition component_all_tcb_caps_h :: "cap_space \<Rightarrow> error + all_tcb_caps_h" where
  "component_all_tcb_caps_h cs =
     (case py_min (all_tcb_caps_slots cs) of
        Inl e \<Rightarrow> Inl e
      | Inr mn \<Rightarrow>
          (case py_max (all_tcb_caps_slots cs) of
             Inl e \<Rightarrow> Inl e
           | Inr mx \<Rightarrow>
               Inr \<lparr>ALL_TCB_CAPS_MIN = mn, ALL_TCB_CAPS_MAX = mx,
                    cap_names_init = cap_names_items (cnode_slots cs)\<rparr>))"

text \<open>
  \<^verbatim>\<open>ALL_TCB_CAPS_NUM\<close> is the C expression \<^verbatim>\<open>(MAX - MIN + 1)\<close> over the two
  hexadecimal literals and the literal \<^verbatim>\<open>1\<close>. With a 32-bit \<^verbatim>\<open>int\<close>, an unsuffixed
  hexadecimal literal has the first of the types \<^verbatim>\<open>int\<close>, \<^verbatim>\<open>unsigned int\<close>, the 64-bit
  signed type and the 64-bit unsigned type that holds its value, and none beyond. A binary
  operation is carried out in the operand type of higher rank; it wraps when that type is
  unsigned, and is undefined when that type is signed and the result is out of its range.
\<close>

datatype c_type = S32 | U32 | S64 | U64

datatype c_error = LiteralTooLarge | SignedOverflow

fun c_rank :: "c_type \<Rightarrow> nat" where
  "c_rank S32 = 0"
| "c_rank U32 = 1"
| "c_rank S64 = 2"
| "c_rank U64 = 3"

fun c_signed :: "c_type \<Rightarrow> bool" where
  "c_signed S32 = True"
| "c_signed U32 = False"
| "c_signed S64 = True"
| "c_signed U64 = False"

fun c_width :: "c_type \<Rightarrow> nat" where
  "c_width S32 = 32"
| "c_width U32 = 32"
| "c_width S64 = 64"
| "c_width U64 = 64"

definition hex_literal :: "nat \<Rightarrow> c_error + c_type \<times> int" where
  "hex_literal v =
     (if v < 2 ^ 31 then Inr (S32, int v)
      else if v < 2 ^ 32 then Inr (U32, int v)
      else if v < 2 ^ 63 then Inr (S64, int v)
      else if v < 2 ^ 64 then Inr (U64, int v)
      else Inl LiteralTooLarge)"

definition c_convert :: "c_type \<Rightarrow> int \<Rightarrow> int" where
  "c_convert t v = (if c_signed t then v else v mod 2 ^ c_width t)"

definition c_binop ::
  "(int \<Rightarrow> int \<Rightarrow> int) \<Rightarrow> c_type \<times> int \<Rightarrow> c_type \<times> int \<Rightarrow> c_error + c_type \<times> int" where
  "c_binop f a b =
     (let t = (if c_rank (fst a) \<le> c_rank (fst b) then fst b else fst a);
          r = f (c_convert t (snd a)) (c_convert t (snd b))
      in if c_signed t
         then (if - (2 ^ (c_width t - 1)) \<le> r \<and> r < 2 ^ (c_width t - 1)
               then Inr (t, r) else Inl SignedOverflow)
         else Inr (t, r mod 2 ^ c_width t))"

definition ALL_TCB_CAPS_NUM :: "all_tcb_caps_h \<Rightarrow> c_error + c_type \<times> int" where
  "ALL_TCB_CAPS_NUM h =
     (case hex_literal (ALL_TCB_CAPS_MAX h) of
        Inl e \<Rightarrow> Inl e
      | Inr mx \<Rightarrow>
          (case hex_literal (ALL_TCB_CAPS_MIN h) of
             Inl e \<Rightarrow> Inl e
           | Inr mn \<Rightarrow>
               (case c_binop (-) mx mn of
                  Inl e \<Rightarrow> Inl e
                | Inr d \<Rightarrow> c_binop (+) d (S32, 1))))"

text \<open>
  C's reading of \<^verbatim>\<open>static char *cap_names[] = { [i] = "s", ... }\<close>: each initialiser
  sets element \<open>i\<close>, the array reaches as far as the largest index, and elements never
  named are null pointers (\<open>None\<close>).
\<close>

fun designate :: "string option list \<Rightarrow> nat \<times> string \<Rightarrow> string option list" where
  "designate arr (i, s) = (arr @ replicate (Suc i - length arr) None)[i := Some s]"

definition cap_names :: "all_tcb_caps_h \<Rightarrow> string option list" where
  "cap_names h = foldl designate [] (cap_names_init h)"

section \<open>Properties of the portable-pointer functions\<close>

lemma wrap_ptr_reject:
  "ptr < base R \<or> base R + type_size R \<le> ptr \<Longrightarrow> wrap_ptr R p ptr = (- 1, p)"
  by (simp add: wrap_ptr_def)

lemma wrap_ptr_accept:
  "\<not> ptr < base R \<Longrightarrow> \<not> base R + type_size R \<le> ptr \<Longrightarrow>
   wrap_ptr R p ptr =
     (0, p\<lparr>id_field := region_id R, offset_field := ucast (ptr - base R)\<rparr>)"
  by (simp add: wrap_ptr_def)

text \<open>
  C3 (region isolation). A portable pointer stamped with the identifier of a region
  \<open>R1\<close> and resolved by a different region \<open>R2\<close> gives \<open>NULL\<close>, whatever its offset.
\<close>

theorem unwrap_ptr_region_isolation:
  "region_id R1 \<noteq> region_id R2 \<Longrightarrow>
   unwrap_ptr R2 \<lparr>id_field = region_id R1, offset_field = off\<rparr> = NULL"
  by (simp add: unwrap_ptr_def)

theorem unwrap_ptr_region_isolation_witness:
  "region_id \<lparr>base = 0x10000 :: 32 word, type_size = 100, region_id = 1 :: nat\<rparr>
     \<noteq> region_id \<lparr>base = 0x20000 :: 32 word, type_size = 100, region_id = 2 :: nat\<rparr>
   \<and> unwrap_ptr \<lparr>base = 0x20000 :: 32 word, type_size = 100, region_id = 2 :: nat\<rparr>
        \<lparr>id_field = 1, offset_field = 8 :: 32 word\<rparr> = (0 :: 32 word)"
  using unwrap_ptr_region_isolation
    [of "\<lparr>base = 0x10000 :: 32 word, type_size = 100, region_id = 1 :: nat\<rparr>"
        "\<lparr>base = 0x20000 :: 32 word, type_size = 100, region_id = 2 :: nat\<rparr>"
        "8 :: 32 word"]
  by (simp add: NULL_def)

text \<open>
  C10 (failure leaves the output untouched). Whenever \<open>wrap_ptr\<close> returns the failure
  value, the struct behind \<open>p\<close> is as it was before the call; a call that changes the
  struct is a successful one, and it has then set both fields.
\<close>

theorem wrap_ptr_failure_writes_nothing:
  "(fst (wrap_ptr R p ptr) = - 1 \<longrightarrow> snd (wrap_ptr R p ptr) = p)
   \<and> (snd (wrap_ptr R p ptr) \<noteq> p \<longrightarrow>
        fst (wrap_ptr R p ptr) = 0
        \<and> snd (wrap_ptr R p ptr)
            = \<lparr>id_field = region_id R, offset_field = ucast (ptr - base R)\<rparr>)"
  by (simp add: wrap_ptr_def)

theorem wrap_ptr_failure_writes_nothing_witness:
  "fst (wrap_ptr \<lparr>base = 0x10000 :: 32 word, type_size = 100, region_id = 1 :: nat\<rparr>
          \<lparr>id_field = 7, offset_field = 9 :: 32 word\<rparr> 0x20000) = - 1
   \<and> snd (wrap_ptr \<lparr>base = 0x10000 :: 32 word, type_size = 100, region_id = 1 :: nat\<rparr>
          \<lparr>id_field = 7, offset_field = 9 :: 32 word\<rparr> 0x20000)
       = \<lparr>id_field = 7, offset_field = 9\<rparr>
   \<and> snd (wrap_ptr \<lparr>base = 0x10000 :: 32 word, type_size = 100, region_id = 1 :: nat\<rparr>
          \<lparr>id_field = 7, offset_field = 9 :: 32 word\<rparr> 0x10004)
       \<noteq> \<lparr>id_field = 7, offset_field = 9\<rparr>
   \<and> fst (wrap_ptr \<lparr>base = 0x10000 :: 32 word, type_size = 100, region_id = 1 :: nat\<rparr>
          \<lparr>id_field = 7, offset_field = 9 :: 32 word\<rparr> 0x10004) = 0
   \<and> snd (wrap_ptr \<lparr>base = 0x10000 :: 32 word, type_size = 100, region_id = 1 :: nat\<rparr>
          \<lparr>id_field = 7, offset_field = 9 :: 32 word\<rparr> 0x10004)
       = \<lparr>id_field = 1, offset_field = 4\<rparr>"
  using wrap_ptr_failure_writes_nothing
      [of "\<lparr>base = 0x10000 :: 32 word, type_size = 100, region_id = 1 :: nat\<rparr>"
          "\<lparr>id_field = 7, offset_field = 9 :: 32 word\<rparr>" "0x20000"]
    wrap_ptr_failure_writes_nothing
      [of "\<lparr>base = 0x10000 :: 32 word, type_size = 100, region_id = 1 :: nat\<rparr>"
          "\<lparr>id_field = 7, offset_field = 9 :: 32 word\<rparr>" "0x10004"]
  by (simp add: wrap_ptr_def)

lemma content_size_ge: "sz \<le> content_size sz"
  by (simp add: content_size_def ROUND_UP_UNSAFE_def)

lemma type_size_le_capacity: "unat (type_size R) \<le> capacity R"
  by (simp add: capacity_def content_size_ge)

text \<open>
  C2 (bounds rejection). An address below the base of the region, or at or beyond the
  base plus the page-rounded capacity, is rejected: \<open>wrap_ptr\<close> returns \<open>-1\<close> and
  leaves the portable pointer as it was. Addresses are compared as numbers, so the
  statement also covers a region that ends at the top of the address space.
\<close>

theorem wrap_ptr_bounds_rejection:
  fixes R :: "('a::len, 'i) region"
  assumes "unat a < unat (base R) \<or> unat (base R) + capacity R \<le> unat a"
  shows "wrap_ptr R p a = (- 1, p)"
proof -
  have "a < base R \<or> base R + type_size R \<le> a"
    using assms
  proof
    assume "unat a < unat (base R)"
    then show ?thesis by (simp add: word_less_nat_alt)
  next
    assume h: "unat (base R) + capacity R \<le> unat a"
    have le: "unat (base R) + unat (type_size R) \<le> unat a"
      using h type_size_le_capacity [of R] by linarith
    have "unat a < 2 ^ LENGTH('a)" by simp
    then have "unat (base R) + unat (type_size R) < 2 ^ LENGTH('a)"
      using le by linarith
    then have "unat (base R + type_size R) = unat (base R) + unat (type_size R)"
      by (rule unat_add_lem [THEN iffD1])
    then show ?thesis using le by (simp add: word_le_nat_alt)
  qed
  then show ?thesis by (rule wrap_ptr_reject)
qed

theorem wrap_ptr_bounds_rejection_witness:
  "unat (base \<lparr>base = 0x10000 :: 32 word, type_size = 100, region_id = 1 :: nat\<rparr>)
     + capacity \<lparr>base = 0x10000 :: 32 word, type_size = 100, region_id = 1 :: nat\<rparr>
     \<le> unat (0x11000 :: 32 word)
   \<and> wrap_ptr \<lparr>base = 0x10000 :: 32 word, type_size = 100, region_id = 1 :: nat\<rparr>
        \<lparr>id_field = 7, offset_field = 9 :: 32 word\<rparr> 0x11000
       = (- 1, \<lparr>id_field = 7, offset_field = 9\<rparr>)
   \<and> unat (0xFFFF :: 32 word)
       < unat (base \<lparr>base = 0x10000 :: 32 word, type_size = 100, region_id = 1 :: nat\<rparr>)
   \<and> wrap_ptr \<lparr>base = 0x10000 :: 32 word, type_size = 100, region_id = 1 :: nat\<rparr>
        \<lparr>id_field = 7, offset_field = 9 :: 32 word\<rparr> 0xFFFF
       = (- 1, \<lparr>id_field = 7, offset_field = 9\<rparr>)"
  using wrap_ptr_bounds_rejection
      [of "0x11000" "\<lparr>base = 0x10000 :: 32 word, type_size = 100, region_id = 1 :: nat\<rparr>"
          "\<lparr>id_field = 7, offset_field = 9 :: 32 word\<rparr>"]
    wrap_ptr_bounds_rejection
      [of "0xFFFF" "\<lparr>base = 0x10000 :: 32 word, type_size = 100, region_id = 1 :: nat\<rparr>"
          "\<lparr>id_field = 7, offset_field = 9 :: 32 word\<rparr>"]
  by (simp add: capacity_def content_size_def ROUND_UP_UNSAFE_def PAGE_SIZE_4K_def)

lemma sint_ucast_small:
  fixes off :: "'a::len word"
  assumes "unat off < 2 ^ (LENGTH('b::len) - 1)"
  shows "sint (ucast off :: 'b word) = uint off"
proof -
  have "int (unat off) < int (2 ^ (LENGTH('b) - 1))"
    using assms by (simp only: of_nat_less_iff)
  then have lt: "uint off < 2 ^ (LENGTH('b) - 1)"
    by (simp only: uint_nat of_nat_power of_nat_numeral)
  have "sint (ucast off :: 'b word) = signed_take_bit (LENGTH('b) - Suc 0) (uint off)"
    by (rule signed_ucast_eq)
  also have "\<dots> = uint off"
  proof (rule signed_take_bit_int_eq_self)
    have "- (2 ^ (LENGTH('b) - Suc 0)) \<le> (0 :: int)" by simp
    also have "0 \<le> uint off" by (rule uint_nonnegative)
    finally show "- (2 ^ (LENGTH('b) - Suc 0)) \<le> uint off" .
    show "uint off < 2 ^ (LENGTH('b) - Suc 0)" using lt by simp
  qed
  finally show ?thesis .
qed

lemma scast_ucast_small:
  fixes off :: "'a::len word"
  assumes "unat off < 2 ^ (LENGTH('b::len) - 1)"
  shows "(scast (ucast off :: 'b word) :: 'a word) = off"
proof -
  have "(scast (ucast off :: 'b word) :: 'a word) = word_of_int (sint (ucast off :: 'b word))"
    by (rule scast_eq)
  also have "\<dots> = word_of_int (uint off)"
    by (simp only: sint_ucast_small [OF assms])
  also have "\<dots> = off" by (rule word_of_int_uint)
  finally show ?thesis .
qed

lemma wrap_ptr_inside:
  fixes R :: "('a::len, 'i) region"
  assumes noov: "unat (base R) + unat (type_size R) < 2 ^ LENGTH('a)"
    and lt: "off < type_size R"
  shows "wrap_ptr R p (base R + off)
         = (0, p\<lparr>id_field := region_id R, offset_field := ucast off\<rparr>)"
proof -
  have o: "unat off < unat (type_size R)"
    using lt by (simp add: word_less_nat_alt)
  have "unat (base R) + unat off < 2 ^ LENGTH('a)"
    using noov o by linarith
  then have s1: "unat (base R + off) = unat (base R) + unat off"
    by (rule unat_add_lem [THEN iffD1])
  have s2: "unat (base R + type_size R) = unat (base R) + unat (type_size R)"
    using noov by (rule unat_add_lem [THEN iffD1])
  have a: "\<not> base R + off < base R"
    using s1 by (simp add: word_less_nat_alt)
  have b: "\<not> base R + type_size R \<le> base R + off"
    using s1 s2 o by (simp add: word_le_nat_alt)
  show ?thesis
    using wrap_ptr_accept [OF a b, of p] by simp
qed

text \<open>
  C1 (round trip), for offsets inside the interface's type. The bounds check of
  \<open>wrap_ptr\<close> uses \<^verbatim>\<open>sizeof\<close> of the type, not the page-rounded capacity. For a region
  whose typed part ends below the top of the address space and whose type size is at
  most \<open>2 ^ (LENGTH('b) - 1)\<close> (every offset is a non-negative \<^verbatim>\<open>off_t\<close>), and for every
  offset below the type size: wrapping base plus offset succeeds with the region's id
  and that offset, and unwrapping the result gives the address back.
\<close>

theorem wrap_unwrap_round_trip:
  fixes R :: "('a::len, 'i) region" and p :: "('i, 'b::len) dataport_ptr"
  assumes noov: "unat (base R) + unat (type_size R) < 2 ^ LENGTH('a)"
    and fit: "unat (type_size R) \<le> 2 ^ (LENGTH('b) - 1)"
    and lt: "off < type_size R"
  shows "wrap_ptr R p (base R + off)
           = (0, \<lparr>id_field = region_id R, offset_field = ucast off\<rparr>)
         \<and> sint (ucast off :: 'b word) = uint off
         \<and> unwrap_ptr R (snd (wrap_ptr R p (base R + off))) = base R + off"
proof -
  have o: "unat off < 2 ^ (LENGTH('b) - 1)"
    using lt fit by (simp add: word_less_nat_alt)
  have w: "wrap_ptr R p (base R + off)
           = (0, \<lparr>id_field = region_id R, offset_field = ucast off\<rparr>)"
    using wrap_ptr_inside [OF noov lt, of p] by simp
  have u: "unwrap_ptr R \<lparr>id_field = region_id R, offset_field = (ucast off :: 'b word)\<rparr>
           = base R + off"
    by (simp add: unwrap_ptr_def scast_ucast_small [OF o])
  show ?thesis
    using w u sint_ucast_small [OF o] by simp
qed

theorem wrap_unwrap_round_trip_witness:
  "unat (base \<lparr>base = 0x10000 :: 32 word, type_size = 100, region_id = 1 :: nat\<rparr>)
     + unat (type_size \<lparr>base = 0x10000 :: 32 word, type_size = 100, region_id = 1 :: nat\<rparr>)
     < 2 ^ LENGTH(32)
   \<and> unat (type_size \<lparr>base = 0x10000 :: 32 word, type_size = 100, region_id = 1 :: nat\<rparr>)
       \<le> 2 ^ (LENGTH(64) - 1)
   \<and> (99 :: 32 word)
       < type_size \<lparr>base = 0x10000 :: 32 word, type_size = 100, region_id = 1 :: nat\<rparr>
   \<and> wrap_ptr \<lparr>base = 0x10000 :: 32 word, type_size = 100, region_id = 1 :: nat\<rparr>
        \<lparr>id_field = 7, offset_field = 9 :: 64 word\<rparr> 0x10063
       = (0, \<lparr>id_field = 1, offset_field = 99\<rparr>)
   \<and> unwrap_ptr \<lparr>base = 0x10000 :: 32 word, type_size = 100, region_id = 1 :: nat\<rparr>
        (snd (wrap_ptr \<lparr>base = 0x10000 :: 32 word, type_size = 100, region_id = 1 :: nat\<rparr>
                \<lparr>id_field = 7, offset_field = 9 :: 64 word\<rparr> 0x10063)) = 0x10063"
  using wrap_unwrap_round_trip
      [of "\<lparr>base = 0x10000 :: 32 word, type_size = 100, region_id = 1 :: nat\<rparr>"
          "99" "\<lparr>id_field = 7, offset_field = 9 :: 64 word\<rparr>"]
  by auto

text \<open>
  C1 as stated, over the whole capacity, fails: the round trip does not reach the
  padding between the type size and the capacity. With a type of 100 bytes the capacity
  is 4096, and the address at offset 2000 is rejected.
\<close>

theorem wrap_ptr_padding_counterexample:
  "(2000 :: nat)
     < capacity \<lparr>base = 0x10000 :: 32 word, type_size = 100, region_id = 1 :: nat\<rparr>
   \<and> wrap_ptr \<lparr>base = 0x10000 :: 32 word, type_size = 100, region_id = 1 :: nat\<rparr>
        \<lparr>id_field = 7, offset_field = 9 :: 32 word\<rparr> (0x10000 + 2000)
       = (- 1, \<lparr>id_field = 7, offset_field = 9\<rparr>)"
  by (simp add: wrap_ptr_def capacity_def content_size_def ROUND_UP_UNSAFE_def
      PAGE_SIZE_4K_def)

lemma uint_plus_scast:
  fixes a :: "'a::len word" and x :: "'b::len word"
  shows "uint (a + scast x) = (uint a + sint x) mod 2 ^ LENGTH('a)"
proof -
  have "uint (a + scast x) = (uint a + uint (scast x :: 'a word)) mod 2 ^ LENGTH('a)"
    by (simp add: uint_word_ariths)
  also have "uint (scast x :: 'a word) = sint x mod 2 ^ LENGTH('a)"
    by (simp only: scast_eq uint_word_of_int)
  also have "(uint a + sint x mod 2 ^ LENGTH('a)) mod 2 ^ LENGTH('a)
             = (uint a + sint x) mod 2 ^ LENGTH('a)"
    by (rule mod_add_right_eq)
  finally show ?thesis .
qed

text \<open>
  C9 (no check of the offset), with the sum read in \<^verbatim>\<open>uintptr_t\<close>. When the id
  matches, \<open>unwrap_ptr\<close> returns the base plus the offset converted to \<^verbatim>\<open>uintptr_t\<close>,
  for every offset: numerically the sum modulo \<open>2 ^ LENGTH('a)\<close>. For an offset at or
  beyond the capacity whose sum with the base is below \<open>2 ^ LENGTH('a)\<close>, the result is
  exactly that sum, at or beyond the end of the region, and it is not \<open>NULL\<close> when the
  type has a size.
\<close>

theorem unwrap_ptr_offset_unchecked:
  fixes R :: "('a::len, 'i) region" and p :: "('i, 'b::len) dataport_ptr"
  assumes idm: "id_field p = region_id R"
  shows "unwrap_ptr R p = base R + scast (offset_field p)
         \<and> uint (unwrap_ptr R p)
             = (uint (base R) + sint (offset_field p)) mod 2 ^ LENGTH('a)
         \<and> (int (capacity R) \<le> sint (offset_field p)
              \<and> uint (base R) + sint (offset_field p) < 2 ^ LENGTH('a)
            \<longrightarrow> uint (unwrap_ptr R p) = uint (base R) + sint (offset_field p)
                \<and> unat (base R) + capacity R \<le> unat (unwrap_ptr R p)
                \<and> (type_size R \<noteq> 0 \<longrightarrow> unwrap_ptr R p \<noteq> NULL))"
proof -
  have e: "unwrap_ptr R p = base R + scast (offset_field p)"
    using idm by (simp add: unwrap_ptr_def)
  have m: "uint (unwrap_ptr R p)
             = (uint (base R) + sint (offset_field p)) mod 2 ^ LENGTH('a)"
    unfolding e by (rule uint_plus_scast)
  have far: "uint (unwrap_ptr R p) = uint (base R) + sint (offset_field p)
             \<and> unat (base R) + capacity R \<le> unat (unwrap_ptr R p)
             \<and> (type_size R \<noteq> 0 \<longrightarrow> unwrap_ptr R p \<noteq> NULL)"
    if c: "int (capacity R) \<le> sint (offset_field p)"
      and s: "uint (base R) + sint (offset_field p) < 2 ^ LENGTH('a)"
  proof -
    have nn: "0 \<le> uint (base R) + sint (offset_field p)"
      using c by (simp add: add_nonneg_nonneg)
    have x: "uint (unwrap_ptr R p) = uint (base R) + sint (offset_field p)"
      using m nn s by simp
    have "int (unat (base R)) + int (capacity R) \<le> int (unat (unwrap_ptr R p))"
      using x c by (simp only: uint_nat)
    then have "int (unat (base R) + capacity R) \<le> int (unat (unwrap_ptr R p))"
      by (simp only: of_nat_add)
    then have ge: "unat (base R) + capacity R \<le> unat (unwrap_ptr R p)"
      by (simp only: of_nat_le_iff)
    have nz: "unwrap_ptr R p \<noteq> NULL" if t: "type_size R \<noteq> 0"
    proof -
      have "0 < unat (type_size R)"
        using t by (simp add: unat_gt_0)
      then have "0 < unat (unwrap_ptr R p)"
        using ge type_size_le_capacity [of R] by linarith
      then show ?thesis
        by (auto simp: NULL_def)
    qed
    show ?thesis using x ge nz by simp
  qed
  show ?thesis using e m far by blast
qed


theorem unwrap_ptr_offset_unchecked_witness:
  "id_field \<lparr>id_field = 1 :: nat, offset_field = 0x2000 :: 32 word\<rparr>
     = region_id \<lparr>base = 0x10000 :: 32 word, type_size = 100, region_id = 1 :: nat\<rparr>
   \<and> int (capacity \<lparr>base = 0x10000 :: 32 word, type_size = 100, region_id = 1 :: nat\<rparr>)
       \<le> sint (0x2000 :: 32 word)
   \<and> uint (0x10000 :: 32 word) + sint (0x2000 :: 32 word) < 2 ^ LENGTH(32)
   \<and> unwrap_ptr \<lparr>base = 0x10000 :: 32 word, type_size = 100, region_id = 1 :: nat\<rparr>
        \<lparr>id_field = 1 :: nat, offset_field = 0x2000 :: 32 word\<rparr> = 0x12000
   \<and> unat (base \<lparr>base = 0x10000 :: 32 word, type_size = 100, region_id = 1 :: nat\<rparr>)
       + capacity \<lparr>base = 0x10000 :: 32 word, type_size = 100, region_id = 1 :: nat\<rparr>
       \<le> unat (0x12000 :: 32 word)
   \<and> type_size \<lparr>base = 0x10000 :: 32 word, type_size = 100, region_id = 1 :: nat\<rparr> \<noteq> 0
   \<and> unwrap_ptr \<lparr>base = 0x10000 :: 32 word, type_size = 100, region_id = 1 :: nat\<rparr>
        \<lparr>id_field = 1 :: nat, offset_field = 0x2000 :: 32 word\<rparr> \<noteq> (NULL :: 32 word)"
  using unwrap_ptr_offset_unchecked
      [of "\<lparr>id_field = 1 :: nat, offset_field = 0x2000 :: 32 word\<rparr>"
          "\<lparr>base = 0x10000 :: 32 word, type_size = 100, region_id = 1 :: nat\<rparr>"]
  by (simp add: capacity_def content_size_def ROUND_UP_UNSAFE_def PAGE_SIZE_4K_def
      NULL_def)

text \<open>
  C9 as stated, for every offset at or beyond the capacity, fails where the sum wraps.
  With 32-bit addresses and a 64-bit \<^verbatim>\<open>off_t\<close>, the offset \<open>0x100000008\<close> on a region at
  \<open>0x10000\<close> resolves to \<open>0x10008\<close>, inside the type. With a region at \<open>0xFFFF0000\<close>, the
  offset \<open>0x10000\<close> resolves to \<open>NULL\<close>, the failure value.
\<close>

theorem unwrap_ptr_offset_wraps_counterexample:
  "id_field \<lparr>id_field = 1 :: nat, offset_field = 0x100000008 :: 64 word\<rparr>
     = region_id \<lparr>base = 0x10000 :: 32 word, type_size = 100, region_id = 1 :: nat\<rparr>
   \<and> int (capacity \<lparr>base = 0x10000 :: 32 word, type_size = 100, region_id = 1 :: nat\<rparr>)
       \<le> sint (0x100000008 :: 64 word)
   \<and> unwrap_ptr \<lparr>base = 0x10000 :: 32 word, type_size = 100, region_id = 1 :: nat\<rparr>
        \<lparr>id_field = 1 :: nat, offset_field = 0x100000008 :: 64 word\<rparr> = 0x10008
   \<and> int (capacity \<lparr>base = 0xFFFF0000 :: 32 word, type_size = 100, region_id = 1 :: nat\<rparr>)
       \<le> sint (0x10000 :: 32 word)
   \<and> unwrap_ptr \<lparr>base = 0xFFFF0000 :: 32 word, type_size = 100, region_id = 1 :: nat\<rparr>
        \<lparr>id_field = 1 :: nat, offset_field = 0x10000 :: 32 word\<rparr> = (NULL :: 32 word)"
  by (simp add: unwrap_ptr_def NULL_def capacity_def content_size_def ROUND_UP_UNSAFE_def
      PAGE_SIZE_4K_def)

lemma content_size_less: "content_size sz < sz + 4096"
  by (simp add: content_size_def ROUND_UP_UNSAFE_def PAGE_SIZE_4K_def)

lemma content_size_multiple: "\<exists>k. content_size sz = 4096 * k"
proof (cases "sz mod 4096 = 0")
  case True
  then have "content_size sz = sz"
    by (simp add: content_size_def ROUND_UP_UNSAFE_def PAGE_SIZE_4K_def)
  moreover have "sz = 4096 * (sz div 4096)"
    using True by (simp add: mod_0_imp_dvd)
  ultimately show ?thesis by metis
next
  case False
  define q where "q = sz div 4096"
  define r where "r = sz mod 4096"
  have d: "sz = 4096 * q + r" unfolding q_def r_def by simp
  have m: "r < 4096" unfolding r_def by simp
  have "content_size sz = sz + (4096 - r)"
    using False unfolding r_def
    by (simp add: content_size_def ROUND_UP_UNSAFE_def PAGE_SIZE_4K_def)
  then have "content_size sz = 4096 * (q + 1)"
    using d m by (simp add: algebra_simps)
  then show ?thesis ..
qed

text \<open>
  C6 (page rounding). The length of the backing array is the type size divided by 4096,
  rounded up to a whole number, times 4096; the sizes 1, 4095, 4096, 4097 and 8192 give
  4096, 4096, 4096, 8192 and 8192.
\<close>

theorem content_size_page_rounding:
  "real (content_size sz) = real_of_int \<lceil>real sz / 4096\<rceil> * 4096
   \<and> map content_size [1, 4095, 4096, 4097, 8192] = [4096, 4096, 4096, 8192, 8192]"
proof -
  obtain k where k: "content_size sz = 4096 * k"
    using content_size_multiple by blast
  have lo: "sz \<le> 4096 * k"
    using content_size_ge [of sz] k by simp
  have hi: "4096 * k < sz + 4096"
    using content_size_less [of sz] k by simp
  have "real sz \<le> 4096 * real k"
    using lo by (metis of_nat_le_iff of_nat_mult of_nat_numeral)
  then have up: "real sz / 4096 \<le> real_of_int (int k)"
    by simp
  have "4096 * real k < real sz + 4096"
    using hi by (metis of_nat_less_iff of_nat_mult of_nat_numeral of_nat_add)
  then have dn: "real_of_int (int k) - 1 < real sz / 4096"
    by simp
  have c: "\<lceil>real sz / 4096\<rceil> = int k"
    using dn up by (rule ceiling_unique)
  have g: "real (content_size sz) = real_of_int \<lceil>real sz / 4096\<rceil> * 4096"
    by (simp add: c k)
  have v: "map content_size [1, 4095, 4096, 4097, 8192] = [4096, 4096, 4096, 8192, 8192]"
    by (simp add: content_size_def ROUND_UP_UNSAFE_def PAGE_SIZE_4K_def)
  show ?thesis using g v by (rule conjI)
qed

section \<open>Properties of the call fragment\<close>

lemma argument_list_for_input_parameters:
  "ps \<noteq> [] \<Longrightarrow>
   argument_list (for_input_parameters ps) = Some (concat (map parameter_slots ps))"
proof (induction ps)
  case Nil
  then show ?case by simp
next
  case (Cons p ps)
  show ?case
  proof (cases "ps = []")
    case True
    then show ?thesis by (simp add: parameter_slots_def)
  next
    case False
    then show ?thesis using Cons.IH by (simp add: parameter_slots_def)
  qed
qed

lemma call_slots_call_unmarshal_inputs:
  "call_slots (call_unmarshal_inputs f sz ps) = Some (descriptor_slots sz ps)"
proof (cases "ps = []")
  case True
  then show ?thesis
    by (simp add: call_unmarshal_inputs_def descriptor_slots_def)
next
  case False
  have "butlast ([Ident sz, Comma] @ for_input_parameters ps @ [RParen])
        = Ident sz # Comma # for_input_parameters ps"
    by (simp add: butlast_append)
  then show ?thesis
    using False argument_list_for_input_parameters [OF False]
    by (simp add: call_unmarshal_inputs_def descriptor_slots_def)
qed

lemma length_descriptor_slots:
  "length (descriptor_slots sz ps) = 1 + sum_list (map (\<lambda>p. if array p then 2 else 1) ps)"
  by (induction ps) (simp_all add: descriptor_slots_def parameter_slots_def)

text \<open>
  C4 (call descriptor layout). The emitted call is well formed and its arguments are the
  size followed, per parameter in declared order, by one pointer for a scalar and by the
  count pointer and the buffer pointer for an array; the number of slots is one plus one
  per scalar plus two per array, and for parameters scalar, array, scalar the five slots
  are as listed.
\<close>

theorem call_descriptor_layout:
  "call_slots (call_unmarshal_inputs f sz ps) = Some (descriptor_slots sz ps)
   \<and> map_option length (call_slots (call_unmarshal_inputs f sz ps))
       = Some (1 + sum_list (map (\<lambda>p. if array p then 2 else 1) ps))
   \<and> call_slots (call_unmarshal_inputs f sz
         [\<lparr>name = a, array = False\<rparr>, \<lparr>name = b, array = True\<rparr>, \<lparr>name = c, array = False\<rparr>])
       = Some [sz, a @ ''_ptr'', b @ ''_sz_ptr'', b @ ''_ptr'', c @ ''_ptr'']"
  by (simp add: call_slots_call_unmarshal_inputs length_descriptor_slots)
    (simp add: descriptor_slots_def parameter_slots_def)

text \<open>
  C5 (empty parameter list). With no input parameters the emitted call has the size as
  its only argument: no comma and nothing else between the parentheses.
\<close>

theorem call_descriptor_no_parameters:
  "call_unmarshal_inputs f sz [] = [Ident f, LParen, Ident sz, RParen]
   \<and> call_slots (call_unmarshal_inputs f sz []) = Some [sz]"
  by (simp add: call_unmarshal_inputs_def)

section \<open>Properties of the capability names header\<close>

lemma py_min_Min: "xs \<noteq> [] \<Longrightarrow> py_min xs = Inr (Min (set xs))"
proof (cases xs)
  case Nil
  assume "xs \<noteq> []"
  then show ?thesis using Nil by simp
next
  case (Cons a list)
  show ?thesis
    unfolding Cons using Min.set_eq_fold [of a list] by simp
qed

lemma py_max_Max: "xs \<noteq> [] \<Longrightarrow> py_max xs = Inr (Max (set xs))"
proof (cases xs)
  case Nil
  assume "xs \<noteq> []"
  then show ?thesis using Nil by simp
next
  case (Cons a list)
  show ?thesis
    unfolding Cons using Max.set_eq_fold [of a list] by simp
qed

lemma set_cap_names_items:
  "set (cap_names_items slots)
   = {(idx, object_name (referent c)) | idx c. (idx, Some c) \<in> set slots}"
proof (induction slots)
  case Nil
  then show ?case by simp
next
  case (Cons a slots)
  obtain idx cap where a: "a = (idx, cap)" by (cases a)
  show ?case
    unfolding a using Cons.IH by (cases cap) auto
qed

lemma fst_cap_names_items:
  "fst ` set (cap_names_items slots) \<subseteq> fst ` set slots"
  by (auto simp: set_cap_names_items intro: image_eqI [where x = "(a, Some c)" for a c])

lemma distinct_cap_names_items:
  "distinct (map fst slots) \<Longrightarrow> distinct (map fst (cap_names_items slots))"
proof (induction slots)
  case Nil
  then show ?case by simp
next
  case (Cons a slots)
  obtain idx cap where a: "a = (idx, cap)" by (cases a)
  have "idx \<notin> fst ` set (cap_names_items slots)"
    using Cons.prems fst_cap_names_items [of slots] unfolding a by auto
  then show ?case
    using Cons unfolding a by (cases cap) auto
qed

lemma length_designate: "length arr \<le> length (designate arr e)"
  by (cases e) simp

lemma length_foldl_designate: "length arr \<le> length (foldl designate arr es)"
proof (induction es arbitrary: arr)
  case Nil
  then show ?case by simp
next
  case (Cons e es)
  have "length arr \<le> length (designate arr e)" by (rule length_designate)
  also have "\<dots> \<le> length (foldl designate (designate arr e) es)" by (rule Cons.IH)
  finally show ?case by simp
qed

lemma designate_other:
  "k < length arr \<Longrightarrow> k \<noteq> fst e \<Longrightarrow> designate arr e ! k = arr ! k"
  by (cases e) (simp add: nth_append)

lemma foldl_designate_other:
  "k < length arr \<Longrightarrow> k \<notin> fst ` set es \<Longrightarrow> foldl designate arr es ! k = arr ! k"
proof (induction es arbitrary: arr)
  case Nil
  then show ?case by simp
next
  case (Cons e es)
  have k: "k < length (designate arr e)"
    using Cons.prems(1) length_designate [of arr e] by linarith
  have "foldl designate (designate arr e) es ! k = designate arr e ! k"
    using Cons.prems(2) by (intro Cons.IH [OF k]) simp
  also have "\<dots> = arr ! k"
    using Cons.prems by (intro designate_other) simp_all
  finally show ?case by simp
qed

lemma designate_here:
  "i < length (designate arr (i, s)) \<and> designate arr (i, s) ! i = Some s"
  by simp

lemma foldl_designate_entry:
  "distinct (map fst es) \<Longrightarrow> (k, s) \<in> set es \<Longrightarrow>
   k < length (foldl designate arr es) \<and> foldl designate arr es ! k = Some s"
proof (induction es arbitrary: arr)
  case Nil
  then show ?case by simp
next
  case (Cons e es)
  show ?case
  proof (cases "e = (k, s)")
    case True
    have notin: "k \<notin> fst ` set es"
      using Cons.prems(1) True by auto
    have h: "k < length (designate arr (k, s))" "designate arr (k, s) ! k = Some s"
      using designate_here [of k arr s] by simp_all
    have "k < length (foldl designate (designate arr (k, s)) es)"
      using h(1) length_foldl_designate [of "designate arr (k, s)" es] by linarith
    moreover have "foldl designate (designate arr (k, s)) es ! k = Some s"
      using foldl_designate_other [OF h(1) notin] h(2) by simp
    ultimately show ?thesis using True by simp
  next
    case False
    then have "(k, s) \<in> set es" using Cons.prems(2) by simp
    moreover have "distinct (map fst es)" using Cons.prems(1) by simp
    ultimately show ?thesis using Cons.IH [of "designate arr e"] by simp
  qed
qed


lemma ALL_TCB_CAPS_NUM_in_int:
  assumes "ALL_TCB_CAPS_MIN h \<le> ALL_TCB_CAPS_MAX h"
    and "ALL_TCB_CAPS_MAX h < 2 ^ 31"
    and "ALL_TCB_CAPS_MAX h - ALL_TCB_CAPS_MIN h + 1 < 2 ^ 31"
  shows "ALL_TCB_CAPS_NUM h
         = Inr (S32, int (ALL_TCB_CAPS_MAX h) - int (ALL_TCB_CAPS_MIN h) + 1)"
proof -
  have mn: "ALL_TCB_CAPS_MIN h < 2 ^ 31"
    using assms(1,2) by linarith
  have d: "c_binop (-) (S32, int (ALL_TCB_CAPS_MAX h)) (S32, int (ALL_TCB_CAPS_MIN h))
           = Inr (S32, int (ALL_TCB_CAPS_MAX h) - int (ALL_TCB_CAPS_MIN h))"
    using assms(1,2) by (simp add: c_binop_def c_convert_def Let_def)
  have p: "c_binop (+) (S32, int (ALL_TCB_CAPS_MAX h) - int (ALL_TCB_CAPS_MIN h)) (S32, 1)
           = Inr (S32, int (ALL_TCB_CAPS_MAX h) - int (ALL_TCB_CAPS_MIN h) + 1)"
    using assms(1,3) by (simp add: c_binop_def c_convert_def Let_def)
  show ?thesis
    using assms(2) mn by (simp add: ALL_TCB_CAPS_NUM_def hex_literal_def d p)
qed

lemma foldl_designate_gap:
  "k \<notin> fst ` set es \<Longrightarrow> k < length (foldl designate arr es) \<Longrightarrow>
   foldl designate arr es ! k = (if k < length arr then arr ! k else None)"
proof (induction es arbitrary: arr)
  case Nil
  then show ?case by simp
next
  case (Cons e es)
  obtain i s where e: "e = (i, s)" by (cases e)
  have ki: "k \<noteq> i" using Cons.prems(1) e by auto
  have notin: "k \<notin> fst ` set es" using Cons.prems(1) by simp
  have len: "k < length (foldl designate (designate arr e) es)"
    using Cons.prems(2) by simp
  have step: "(if k < length (designate arr e) then designate arr e ! k else None)
              = (if k < length arr then arr ! k else None)"
    using ki unfolding e by (auto simp: nth_append)
  have "foldl designate (designate arr e) es ! k
        = (if k < length (designate arr e) then designate arr e ! k else None)"
    using notin len by (rule Cons.IH)
  then show ?case using step by simp
qed

text \<open>
  C7 (directory completeness), over the whole slot table. With a non-empty list of TCB
  slots the header is generated, and the initialisers of \<open>cap_names\<close> are exactly the
  pairs of index and referent name of the populated entries of the slot table
  \<^verbatim>\<open>cnode.slots\<close>, wherever they lie; empty entries give none. When the largest listed
  slot and the size of the range are below \<open>2 ^ 31\<close>, \<open>ALL_TCB_CAPS_NUM\<close> is an
  \<^verbatim>\<open>int\<close> equal to the largest listed slot minus the smallest plus one.
\<close>

theorem cap_directory_completeness:
  assumes "all_tcb_caps_slots cs \<noteq> []"
    and "Max (set (all_tcb_caps_slots cs)) < 2 ^ 31"
    and "Max (set (all_tcb_caps_slots cs)) - Min (set (all_tcb_caps_slots cs)) + 1 < 2 ^ 31"
  shows "\<exists>h. component_all_tcb_caps_h cs = Inr h
           \<and> set (cap_names_init h)
               = {(idx, object_name (referent c)) | idx c. (idx, Some c) \<in> set (cnode_slots cs)}
           \<and> ALL_TCB_CAPS_NUM h
               = Inr (S32, int (Max (set (all_tcb_caps_slots cs)))
                           - int (Min (set (all_tcb_caps_slots cs))) + 1)"
proof -
  let ?h = "\<lparr>ALL_TCB_CAPS_MIN = Min (set (all_tcb_caps_slots cs)),
             ALL_TCB_CAPS_MAX = Max (set (all_tcb_caps_slots cs)),
             cap_names_init = cap_names_items (cnode_slots cs)\<rparr>"
  have g: "component_all_tcb_caps_h cs = Inr ?h"
    using assms(1) by (simp add: component_all_tcb_caps_h_def py_min_Min py_max_Max)
  have le: "Min (set (all_tcb_caps_slots cs)) \<le> Max (set (all_tcb_caps_slots cs))"
    using assms(1) by (simp add: Min_le_iff)
  have n: "ALL_TCB_CAPS_NUM ?h
           = Inr (S32, int (Max (set (all_tcb_caps_slots cs)))
                       - int (Min (set (all_tcb_caps_slots cs))) + 1)"
    using ALL_TCB_CAPS_NUM_in_int [of ?h] le assms(2,3) by simp
  have e: "set (cap_names_init ?h)
           = {(idx, object_name (referent c)) | idx c. (idx, Some c) \<in> set (cnode_slots cs)}"
    by (simp add: set_cap_names_items)
  show ?thesis using g e n by blast
qed

theorem cap_directory_completeness_witness:
  "all_tcb_caps_slots
        \<lparr>all_tcb_caps_slots = [2, 3, 4, 5],
         cnode_slots = [(2, None), (3, Some \<lparr>referent = \<lparr>object_name = ''tcb_a''\<rparr>\<rparr>),
                        (4, None), (5, Some \<lparr>referent = \<lparr>object_name = ''tcb_b''\<rparr>\<rparr>)]\<rparr> \<noteq> []
   \<and> Max (set (all_tcb_caps_slots
        \<lparr>all_tcb_caps_slots = [2, 3, 4, 5],
         cnode_slots = [(2, None), (3, Some \<lparr>referent = \<lparr>object_name = ''tcb_a''\<rparr>\<rparr>),
                        (4, None), (5, Some \<lparr>referent = \<lparr>object_name = ''tcb_b''\<rparr>\<rparr>)]\<rparr>)) < (2 :: nat) ^ 31
   \<and> Max (set (all_tcb_caps_slots
        \<lparr>all_tcb_caps_slots = [2, 3, 4, 5],
         cnode_slots = [(2, None), (3, Some \<lparr>referent = \<lparr>object_name = ''tcb_a''\<rparr>\<rparr>),
                        (4, None), (5, Some \<lparr>referent = \<lparr>object_name = ''tcb_b''\<rparr>\<rparr>)]\<rparr>))
       - Min (set (all_tcb_caps_slots
        \<lparr>all_tcb_caps_slots = [2, 3, 4, 5],
         cnode_slots = [(2, None), (3, Some \<lparr>referent = \<lparr>object_name = ''tcb_a''\<rparr>\<rparr>),
                        (4, None), (5, Some \<lparr>referent = \<lparr>object_name = ''tcb_b''\<rparr>\<rparr>)]\<rparr>)) + 1 < (2 :: nat) ^ 31
   \<and> component_all_tcb_caps_h
        \<lparr>all_tcb_caps_slots = [2, 3, 4, 5],
         cnode_slots = [(2, None), (3, Some \<lparr>referent = \<lparr>object_name = ''tcb_a''\<rparr>\<rparr>),
                        (4, None), (5, Some \<lparr>referent = \<lparr>object_name = ''tcb_b''\<rparr>\<rparr>)]\<rparr>
       = Inr \<lparr>ALL_TCB_CAPS_MIN = 2, ALL_TCB_CAPS_MAX = 5,
              cap_names_init = [(3, ''tcb_a''), (5, ''tcb_b'')]\<rparr>
   \<and> ALL_TCB_CAPS_NUM \<lparr>ALL_TCB_CAPS_MIN = 2, ALL_TCB_CAPS_MAX = 5,
              cap_names_init = [(3, ''tcb_a''), (5, ''tcb_b'')]\<rparr> = Inr (S32, 4)
   \<and> cap_names \<lparr>ALL_TCB_CAPS_MIN = 2, ALL_TCB_CAPS_MAX = 5,
              cap_names_init = [(3, ''tcb_a''), (5, ''tcb_b'')]\<rparr>
       = [None, None, None, Some ''tcb_a'', None, Some ''tcb_b'']"
proof -
  let ?cs = "\<lparr>all_tcb_caps_slots = [2, 3, 4, 5],
         cnode_slots = [(2, None), (3, Some \<lparr>referent = \<lparr>object_name = ''tcb_a''\<rparr>\<rparr>),
                        (4, None), (5, Some \<lparr>referent = \<lparr>object_name = ''tcb_b''\<rparr>\<rparr>)]\<rparr>"
  have a: "all_tcb_caps_slots ?cs \<noteq> []" by simp
  have b: "Max (set (all_tcb_caps_slots ?cs)) < (2 :: nat) ^ 31" by simp
  have c: "Max (set (all_tcb_caps_slots ?cs)) - Min (set (all_tcb_caps_slots ?cs)) + 1
           < (2 :: nat) ^ 31" by simp
  have g: "component_all_tcb_caps_h ?cs = Inr \<lparr>ALL_TCB_CAPS_MIN = 2, ALL_TCB_CAPS_MAX = 5,
              cap_names_init = [(3, ''tcb_a''), (5, ''tcb_b'')]\<rparr>"
    by (simp add: component_all_tcb_caps_h_def)
  have v: "cap_names \<lparr>ALL_TCB_CAPS_MIN = 2, ALL_TCB_CAPS_MAX = 5,
              cap_names_init = [(3, ''tcb_a''), (5, ''tcb_b'')]\<rparr>
           = [None, None, None, Some ''tcb_a'', None, Some ''tcb_b'']"
    by (simp add: cap_names_def eval_nat_numeral)
  show ?thesis
    using cap_directory_completeness [OF a b c] a b c g v by simp
qed

text \<open>
  C7 as stated, with the directory built over the slot range, fails: the template goes
  through the whole slot table. With TCB slots 2 to 5 and a populated slot 7 in the
  table, the directory has an entry for slot 7, beyond \<open>ALL_TCB_CAPS_MAX\<close>, and the
  array has 8 elements while \<open>ALL_TCB_CAPS_NUM\<close> is 4. And with TCB slots 0 and
  \<open>0xFFFFFFFF\<close> the macro is evaluated in \<^verbatim>\<open>unsigned int\<close> and wraps to 0.
\<close>

theorem cap_directory_range_counterexample:
  "component_all_tcb_caps_h
        \<lparr>all_tcb_caps_slots = [2, 3, 4, 5],
         cnode_slots = [(2, None), (3, Some \<lparr>referent = \<lparr>object_name = ''tcb_a''\<rparr>\<rparr>),
                        (4, None), (5, Some \<lparr>referent = \<lparr>object_name = ''tcb_b''\<rparr>\<rparr>),
                        (7, Some \<lparr>referent = \<lparr>object_name = ''ep''\<rparr>\<rparr>)]\<rparr>
       = Inr \<lparr>ALL_TCB_CAPS_MIN = 2, ALL_TCB_CAPS_MAX = 5,
              cap_names_init = [(3, ''tcb_a''), (5, ''tcb_b''), (7, ''ep'')]\<rparr>
   \<and> (7, ''ep'') \<in> set (cap_names_init \<lparr>ALL_TCB_CAPS_MIN = 2, ALL_TCB_CAPS_MAX = 5,
              cap_names_init = [(3, ''tcb_a''), (5, ''tcb_b''), (7, ''ep'')]\<rparr>)
   \<and> ALL_TCB_CAPS_MAX \<lparr>ALL_TCB_CAPS_MIN = 2, ALL_TCB_CAPS_MAX = 5,
              cap_names_init = [(3, ''tcb_a''), (5, ''tcb_b''), (7, ''ep'')]\<rparr> < 7
   \<and> ALL_TCB_CAPS_NUM \<lparr>ALL_TCB_CAPS_MIN = 2, ALL_TCB_CAPS_MAX = 5,
              cap_names_init = [(3, ''tcb_a''), (5, ''tcb_b''), (7, ''ep'')]\<rparr> = Inr (S32, 4)
   \<and> cap_names \<lparr>ALL_TCB_CAPS_MIN = 2, ALL_TCB_CAPS_MAX = 5,
              cap_names_init = [(3, ''tcb_a''), (5, ''tcb_b''), (7, ''ep'')]\<rparr>
       = [None, None, None, Some ''tcb_a'', None, Some ''tcb_b'', None, Some ''ep'']
   \<and> component_all_tcb_caps_h \<lparr>all_tcb_caps_slots = [0, 0xFFFFFFFF], cnode_slots = []\<rparr>
       = Inr \<lparr>ALL_TCB_CAPS_MIN = 0, ALL_TCB_CAPS_MAX = 0xFFFFFFFF, cap_names_init = []\<rparr>
   \<and> ALL_TCB_CAPS_NUM
         \<lparr>ALL_TCB_CAPS_MIN = 0, ALL_TCB_CAPS_MAX = 0xFFFFFFFF, cap_names_init = []\<rparr>
       = Inr (U32, 0)"
proof -
  let ?h = "\<lparr>ALL_TCB_CAPS_MIN = 2, ALL_TCB_CAPS_MAX = 5,
              cap_names_init = [(3, ''tcb_a''), (5, ''tcb_b''), (7, ''ep'')]\<rparr>"
  have n: "ALL_TCB_CAPS_NUM ?h = Inr (S32, 4)"
    by (simp add: ALL_TCB_CAPS_NUM_def hex_literal_def c_binop_def c_convert_def Let_def)
  have v: "cap_names ?h
           = [None, None, None, Some ''tcb_a'', None, Some ''tcb_b'', None, Some ''ep'']"
    by (simp add: cap_names_def eval_nat_numeral)
  have w: "ALL_TCB_CAPS_NUM
             \<lparr>ALL_TCB_CAPS_MIN = 0, ALL_TCB_CAPS_MAX = 0xFFFFFFFF, cap_names_init = []\<rparr>
           = Inr (U32, 0)"
    by (simp add: ALL_TCB_CAPS_NUM_def hex_literal_def c_binop_def c_convert_def Let_def)
  show ?thesis
    using n v w by (simp add: component_all_tcb_caps_h_def)
qed

text \<open>
  C8 (directory indexing), by absolute slot index. The designator of each initialiser is
  the slot index itself: for a slot table with distinct keys, the name of every populated
  slot \<open>k\<close> is element \<open>k\<close> of the array \<open>cap_names\<close>, and every element of the array
  whose index is not a populated slot is a null pointer.
\<close>

theorem cap_names_indexed_by_slot:
  assumes "component_all_tcb_caps_h cs = Inr h"
    and "distinct (map fst (cnode_slots cs))"
  shows "((k, Some c) \<in> set (cnode_slots cs)
          \<longrightarrow> k < length (cap_names h)
              \<and> cap_names h ! k = Some (object_name (referent c)))
         \<and> (j < length (cap_names h) \<and> (\<forall>d. (j, Some d) \<notin> set (cnode_slots cs))
          \<longrightarrow> cap_names h ! j = None)"
proof -
  have i: "cap_names_init h = cap_names_items (cnode_slots cs)"
    using assms(1)
    by (auto simp: component_all_tcb_caps_h_def split: sum.splits)
  have d: "distinct (map fst (cap_names_init h))"
    unfolding i using assms(2) by (rule distinct_cap_names_items)
  have pop: "k < length (cap_names h) \<and> cap_names h ! k = Some (object_name (referent c))"
    if m: "(k, Some c) \<in> set (cnode_slots cs)"
  proof -
    have "(k, object_name (referent c)) \<in> set (cap_names_init h)"
      unfolding i set_cap_names_items using m by blast
    with d show ?thesis
      unfolding cap_names_def by (rule foldl_designate_entry)
  qed
  have gap: "cap_names h ! j = None"
    if l: "j < length (cap_names h)" and u: "\<forall>d. (j, Some d) \<notin> set (cnode_slots cs)"
  proof -
    have "j \<notin> fst ` set (cap_names_init h)"
      unfolding i set_cap_names_items using u by auto
    then have "foldl designate [] (cap_names_init h) ! j
               = (if j < length ([] :: string option list) then [] ! j else None)"
      using l unfolding cap_names_def by (rule foldl_designate_gap)
    then show ?thesis by (simp add: cap_names_def)
  qed
  show ?thesis using pop gap by blast
qed

theorem cap_names_indexed_by_slot_witness:
  "component_all_tcb_caps_h
        \<lparr>all_tcb_caps_slots = [2, 3, 4, 5],
         cnode_slots = [(2, None), (3, Some \<lparr>referent = \<lparr>object_name = ''tcb_a''\<rparr>\<rparr>),
                        (4, None), (5, Some \<lparr>referent = \<lparr>object_name = ''tcb_b''\<rparr>\<rparr>)]\<rparr>
       = Inr \<lparr>ALL_TCB_CAPS_MIN = 2, ALL_TCB_CAPS_MAX = 5,
              cap_names_init = [(3, ''tcb_a''), (5, ''tcb_b'')]\<rparr>
   \<and> distinct (map fst [(2 :: nat, None), (3, Some \<lparr>referent = \<lparr>object_name = ''tcb_a''\<rparr>\<rparr>),
                        (4, None), (5, Some \<lparr>referent = \<lparr>object_name = ''tcb_b''\<rparr>\<rparr>)])
   \<and> (5, Some \<lparr>referent = \<lparr>object_name = ''tcb_b''\<rparr>\<rparr>)
       \<in> set [(2 :: nat, None), (3, Some \<lparr>referent = \<lparr>object_name = ''tcb_a''\<rparr>\<rparr>),
                        (4, None), (5, Some \<lparr>referent = \<lparr>object_name = ''tcb_b''\<rparr>\<rparr>)]
   \<and> 5 < length (cap_names \<lparr>ALL_TCB_CAPS_MIN = 2, ALL_TCB_CAPS_MAX = 5,
              cap_names_init = [(3, ''tcb_a''), (5, ''tcb_b'')]\<rparr>)
   \<and> cap_names \<lparr>ALL_TCB_CAPS_MIN = 2, ALL_TCB_CAPS_MAX = 5,
              cap_names_init = [(3, ''tcb_a''), (5, ''tcb_b'')]\<rparr> ! 5 = Some ''tcb_b''
   \<and> 4 < length (cap_names \<lparr>ALL_TCB_CAPS_MIN = 2, ALL_TCB_CAPS_MAX = 5,
              cap_names_init = [(3, ''tcb_a''), (5, ''tcb_b'')]\<rparr>)
   \<and> (\<forall>d. (4, Some d)
         \<notin> set [(2 :: nat, None), (3, Some \<lparr>referent = \<lparr>object_name = ''tcb_a''\<rparr>\<rparr>),
                        (4, None), (5, Some \<lparr>referent = \<lparr>object_name = ''tcb_b''\<rparr>\<rparr>)])
   \<and> cap_names \<lparr>ALL_TCB_CAPS_MIN = 2, ALL_TCB_CAPS_MAX = 5,
              cap_names_init = [(3, ''tcb_a''), (5, ''tcb_b'')]\<rparr> ! 4 = None"
proof -
  let ?cs = "\<lparr>all_tcb_caps_slots = [2, 3, 4, 5],
         cnode_slots = [(2, None), (3, Some \<lparr>referent = \<lparr>object_name = ''tcb_a''\<rparr>\<rparr>),
                        (4, None), (5, Some \<lparr>referent = \<lparr>object_name = ''tcb_b''\<rparr>\<rparr>)]\<rparr>"
  let ?h = "\<lparr>ALL_TCB_CAPS_MIN = 2, ALL_TCB_CAPS_MAX = 5,
              cap_names_init = [(3, ''tcb_a''), (5, ''tcb_b'')]\<rparr>"
  have a: "component_all_tcb_caps_h ?cs = Inr ?h"
    by (simp add: component_all_tcb_caps_h_def)
  have b: "distinct (map fst (cnode_slots ?cs))" by simp
  have c: "(5, Some \<lparr>referent = \<lparr>object_name = ''tcb_b''\<rparr>\<rparr>) \<in> set (cnode_slots ?cs)"
    by simp
  have l: "4 < length (cap_names ?h)"
    by (simp add: cap_names_def eval_nat_numeral)
  have u: "\<forall>d. (4, Some d) \<notin> set (cnode_slots ?cs)" by simp
  show ?thesis
    using cap_names_indexed_by_slot
      [OF a b, of 5 "\<lparr>referent = \<lparr>object_name = ''tcb_b''\<rparr>\<rparr>" 4] a c l u
    by simp
qed

text \<open>
  C8 as stated fails: the table is not indexed by the offset from the smallest slot. With
  slots 2 to 5 and slots 3 and 5 populated, element \<open>3 - 2\<close> is a null pointer and the
  name of slot 3 is element 3.
\<close>

theorem cap_names_offset_counterexample:
  "component_all_tcb_caps_h
        \<lparr>all_tcb_caps_slots = [2, 3, 4, 5],
         cnode_slots = [(2, None), (3, Some \<lparr>referent = \<lparr>object_name = ''tcb_a''\<rparr>\<rparr>),
                        (4, None), (5, Some \<lparr>referent = \<lparr>object_name = ''tcb_b''\<rparr>\<rparr>)]\<rparr>
       = Inr \<lparr>ALL_TCB_CAPS_MIN = 2, ALL_TCB_CAPS_MAX = 5,
              cap_names_init = [(3, ''tcb_a''), (5, ''tcb_b'')]\<rparr>
   \<and> cap_names \<lparr>ALL_TCB_CAPS_MIN = 2, ALL_TCB_CAPS_MAX = 5,
              cap_names_init = [(3, ''tcb_a''), (5, ''tcb_b'')]\<rparr> ! (3 - 2) = None
   \<and> cap_names \<lparr>ALL_TCB_CAPS_MIN = 2, ALL_TCB_CAPS_MAX = 5,
              cap_names_init = [(3, ''tcb_a''), (5, ''tcb_b'')]\<rparr> ! 3 = Some ''tcb_a''"
  by (simp add: component_all_tcb_caps_h_def cap_names_def eval_nat_numeral)

end
